theory Spec2Isabelle
  imports Main "HOL-Library.Word" "HOL-Library.Sublist"
begin

unbundle bit_operations_syntax

section \<open>Address values (netaddress.cpp)\<close>

type_synonym u8 = "8 word"
type_synonym u32 = "32 word"

text \<open>
  \<^verbatim>\<open>enum Network\<close> is declared in netaddress.h. The enumerators that netaddress.cpp
  stores in \<^verbatim>\<open>m_net\<close> or returns from \<^verbatim>\<open>GetNetwork\<close> are the constructors below.
  Where the source converts an enumerator to \<^verbatim>\<open>uint8_t\<close> (in \<^verbatim>\<open>GetNetClass\<close> and
  \<^verbatim>\<open>GetGroup\<close>) the numbering of the enumeration is a parameter \<open>tag\<close> of the model.
\<close>

datatype Network = NET_UNROUTABLE | NET_IPV4 | NET_IPV6 | NET_ONION | NET_INTERNAL

text \<open>
  \<^verbatim>\<open>class CNetAddr\<close>: \<^verbatim>\<open>uint8_t ip[16]\<close> (a list, of length 16 in every address the
  program builds), the family \<^verbatim>\<open>m_net\<close> and the IPv6 scope id.
\<close>

record CNetAddr =
  ip :: "u8 list"
  m_net :: Network
  scopeId :: u32

definition pchIPv4 :: "u8 list" where
  "pchIPv4 = [0, 0, 0, 0, 0, 0, 0, 0, 0, 0, 0xff, 0xff]"

definition pchOnionCat :: "u8 list" where
  "pchOnionCat = [0xFD, 0x87, 0xD8, 0x7E, 0xEB, 0x43]"

definition g_internal_prefix :: "u8 list" where
  "g_internal_prefix = [0xFD, 0x6B, 0x88, 0xC0, 0x87, 0x24]"

definition pchSingleAddressNetmask :: "u8 list" where
  "pchSingleAddressNetmask =
     [0xff, 0xff, 0xff, 0xff, 0xff, 0xff, 0xff, 0xff, 0xff, 0xff, 0xff, 0xff, 0xff, 0xff, 0xff, 0xff]"

text \<open>\<^verbatim>\<open>std::memcmp(p, q, n) == 0\<close>: the first \<open>n\<close> bytes agree.\<close>

definition memcmp_eq :: "u8 list \<Rightarrow> u8 list \<Rightarrow> nat \<Rightarrow> bool" where
  "memcmp_eq p q n = (take n p = take n q)"

text \<open>
  \<^verbatim>\<open>SetLegacyIPv6\<close>: the family is derived from the buffer's prefix, then the 16 bytes
  are copied. The scope id is not touched.
\<close>

definition SetLegacyIPv6 :: "u8 list \<Rightarrow> CNetAddr \<Rightarrow> CNetAddr" where
  "SetLegacyIPv6 ipv6 a =
     (let net =
        (if memcmp_eq ipv6 pchIPv4 (length pchIPv4) then NET_IPV4
         else if memcmp_eq ipv6 pchOnionCat (length pchOnionCat) then NET_ONION
         else if memcmp_eq ipv6 g_internal_prefix (length g_internal_prefix) then NET_INTERNAL
         else NET_IPV6)
      in a\<lparr>m_net := net, ip := take 16 ipv6\<rparr>)"

text \<open>
  \<^verbatim>\<open>SetSpecial\<close>. \<^verbatim>\<open>DecodeBase32\<close> lives in util/strencodings and is a parameter; it
  receives the C string of the part before the suffix, which ends at the first NUL
  byte. The result pairs the returned \<^verbatim>\<open>bool\<close> with the address after the call.
\<close>

definition c_str :: "string \<Rightarrow> string" where
  "c_str s = takeWhile (\<lambda>c. c \<noteq> CHR 0x00) s"

definition SetSpecial :: "(string \<Rightarrow> u8 list) \<Rightarrow> string \<Rightarrow> CNetAddr \<Rightarrow> bool \<times> CNetAddr" where
  "SetSpecial DecodeBase32 strName a =
     (if length strName > 6 \<and> take 6 (drop (length strName - 6) strName) = ''.onion'' then
        (let vchAddr = DecodeBase32 (c_str (take (length strName - 6) strName)) in
         if length vchAddr \<noteq> 16 - length pchOnionCat then (False, a)
         else
           (let ip1 = pchOnionCat @ drop (length pchOnionCat) (ip a);
                ip2 = fold (\<lambda>i b. b[i + length pchOnionCat := vchAddr ! i])
                        [0 ..< 16 - length pchOnionCat] ip1
            in (True, a\<lparr>m_net := NET_ONION, ip := ip2\<rparr>)))
      else (False, a))"

text \<open>
  \<^verbatim>\<open>GetByte(n)\<close> is \<^verbatim>\<open>ip[15 - n]\<close>; every call in the file passes \<open>0 \<le> n \<le> 15\<close>.
  The source widens the byte to \<^verbatim>\<open>unsigned int\<close>; every use compares it with, or
  masks it by, a constant below 256 or narrows it back to a byte, so the byte is kept.
\<close>

definition GetByte :: "CNetAddr \<Rightarrow> nat \<Rightarrow> u8" where
  "GetByte a n = ip a ! (15 - n)"

definition IsIPv4 :: "CNetAddr \<Rightarrow> bool" where
  "IsIPv4 a = (m_net a = NET_IPV4)"

definition IsIPv6 :: "CNetAddr \<Rightarrow> bool" where
  "IsIPv6 a = (m_net a = NET_IPV6)"

definition IsRFC1918 :: "CNetAddr \<Rightarrow> bool" where
  "IsRFC1918 a =
     (IsIPv4 a \<and>
      (GetByte a 3 = 10 \<or> (GetByte a 3 = 192 \<and> GetByte a 2 = 168) \<or>
       (GetByte a 3 = 172 \<and> (GetByte a 2 \<ge> 16 \<and> GetByte a 2 \<le> 31))))"

definition IsRFC2544 :: "CNetAddr \<Rightarrow> bool" where
  "IsRFC2544 a = (IsIPv4 a \<and> GetByte a 3 = 198 \<and> (GetByte a 2 = 18 \<or> GetByte a 2 = 19))"

definition IsRFC3927 :: "CNetAddr \<Rightarrow> bool" where
  "IsRFC3927 a = (IsIPv4 a \<and> (GetByte a 3 = 169 \<and> GetByte a 2 = 254))"

definition IsRFC6598 :: "CNetAddr \<Rightarrow> bool" where
  "IsRFC6598 a = (IsIPv4 a \<and> GetByte a 3 = 100 \<and> GetByte a 2 \<ge> 64 \<and> GetByte a 2 \<le> 127)"

definition IsRFC5737 :: "CNetAddr \<Rightarrow> bool" where
  "IsRFC5737 a =
     (IsIPv4 a \<and>
      ((GetByte a 3 = 192 \<and> GetByte a 2 = 0 \<and> GetByte a 1 = 2) \<or>
       (GetByte a 3 = 198 \<and> GetByte a 2 = 51 \<and> GetByte a 1 = 100) \<or>
       (GetByte a 3 = 203 \<and> GetByte a 2 = 0 \<and> GetByte a 1 = 113)))"

definition IsRFC3849 :: "CNetAddr \<Rightarrow> bool" where
  "IsRFC3849 a =
     (IsIPv6 a \<and> GetByte a 15 = 0x20 \<and> GetByte a 14 = 0x01 \<and> GetByte a 13 = 0x0D \<and>
      GetByte a 12 = 0xB8)"

definition IsRFC3964 :: "CNetAddr \<Rightarrow> bool" where
  "IsRFC3964 a = (IsIPv6 a \<and> GetByte a 15 = 0x20 \<and> GetByte a 14 = 0x02)"

definition pchRFC6052 :: "u8 list" where
  "pchRFC6052 = [0, 0x64, 0xFF, 0x9B, 0, 0, 0, 0, 0, 0, 0, 0]"

definition IsRFC6052 :: "CNetAddr \<Rightarrow> bool" where
  "IsRFC6052 a = (IsIPv6 a \<and> memcmp_eq (ip a) pchRFC6052 (length pchRFC6052))"

definition IsRFC4380 :: "CNetAddr \<Rightarrow> bool" where
  "IsRFC4380 a =
     (IsIPv6 a \<and> GetByte a 15 = 0x20 \<and> GetByte a 14 = 0x01 \<and> GetByte a 13 = 0 \<and>
      GetByte a 12 = 0)"

definition pchRFC4862 :: "u8 list" where
  "pchRFC4862 = [0xFE, 0x80, 0, 0, 0, 0, 0, 0]"

definition IsRFC4862 :: "CNetAddr \<Rightarrow> bool" where
  "IsRFC4862 a = (IsIPv6 a \<and> memcmp_eq (ip a) pchRFC4862 (length pchRFC4862))"

definition IsRFC4193 :: "CNetAddr \<Rightarrow> bool" where
  "IsRFC4193 a = (IsIPv6 a \<and> (GetByte a 15 AND 0xFE) = 0xFC)"

definition pchRFC6145 :: "u8 list" where
  "pchRFC6145 = [0, 0, 0, 0, 0, 0, 0, 0, 0xFF, 0xFF, 0, 0]"

definition IsRFC6145 :: "CNetAddr \<Rightarrow> bool" where
  "IsRFC6145 a = (IsIPv6 a \<and> memcmp_eq (ip a) pchRFC6145 (length pchRFC6145))"

definition IsRFC4843 :: "CNetAddr \<Rightarrow> bool" where
  "IsRFC4843 a =
     (IsIPv6 a \<and> GetByte a 15 = 0x20 \<and> GetByte a 14 = 0x01 \<and> GetByte a 13 = 0x00 \<and>
      (GetByte a 12 AND 0xF0) = 0x10)"

definition IsRFC7343 :: "CNetAddr \<Rightarrow> bool" where
  "IsRFC7343 a =
     (IsIPv6 a \<and> GetByte a 15 = 0x20 \<and> GetByte a 14 = 0x01 \<and> GetByte a 13 = 0x00 \<and>
      (GetByte a 12 AND 0xF0) = 0x20)"

definition IsHeNet :: "CNetAddr \<Rightarrow> bool" where
  "IsHeNet a =
     (GetByte a 15 = 0x20 \<and> GetByte a 14 = 0x01 \<and> GetByte a 13 = 0x04 \<and> GetByte a 12 = 0x70)"

definition IsTor :: "CNetAddr \<Rightarrow> bool" where
  "IsTor a = (m_net a = NET_ONION)"

definition pchLocal :: "u8 list" where
  "pchLocal = [0, 0, 0, 0, 0, 0, 0, 0, 0, 0, 0, 0, 0, 0, 0, 1]"

definition IsLocal :: "CNetAddr \<Rightarrow> bool" where
  "IsLocal a =
     (if IsIPv4 a \<and> (GetByte a 3 = 127 \<or> GetByte a 3 = 0) then True
      else if IsIPv6 a \<and> memcmp_eq (ip a) pchLocal 16 then True
      else False)"

definition IsInternal :: "CNetAddr \<Rightarrow> bool" where
  "IsInternal a = (m_net a = NET_INTERNAL)"

text \<open>
  \<^verbatim>\<open>IsValid\<close>. \<^verbatim>\<open>INADDR_NONE\<close> is the all-ones 32-bit value, so its four bytes in
  memory are \<open>ff ff ff ff\<close> in either byte order.
\<close>

definition ipNone6 :: "u8 list" where
  "ipNone6 = [0, 0, 0, 0, 0, 0, 0, 0, 0, 0, 0, 0, 0, 0, 0, 0]"

definition IsValid :: "CNetAddr \<Rightarrow> bool" where
  "IsValid a =
     (if IsIPv6 a \<and> memcmp_eq (ip a) ipNone6 16 then False
      else if IsRFC3849 a then False
      else if IsInternal a then False
      else if IsIPv4 a \<and> memcmp_eq (drop 12 (ip a)) [0xff, 0xff, 0xff, 0xff] 4 then False
      else if IsIPv4 a \<and> memcmp_eq (drop 12 (ip a)) [0, 0, 0, 0] 4 then False
      else True)"

definition IsRoutable :: "CNetAddr \<Rightarrow> bool" where
  "IsRoutable a =
     (IsValid a \<and>
      \<not> (IsRFC1918 a \<or> IsRFC2544 a \<or> IsRFC3927 a \<or> IsRFC4862 a \<or>
         IsRFC6598 a \<or> IsRFC5737 a \<or> (IsRFC4193 a \<and> \<not> IsTor a) \<or>
         IsRFC4843 a \<or> IsRFC7343 a \<or> IsLocal a \<or> IsInternal a))"

definition GetNetwork :: "CNetAddr \<Rightarrow> Network" where
  "GetNetwork a =
     (if IsInternal a then NET_INTERNAL
      else if \<not> IsRoutable a then NET_UNROUTABLE
      else m_net a)"

definition HasLinkedIPv4 :: "CNetAddr \<Rightarrow> bool" where
  "HasLinkedIPv4 a =
     (IsRoutable a \<and> (IsIPv4 a \<or> IsRFC6145 a \<or> IsRFC6052 a \<or> IsRFC3964 a \<or> IsRFC4380 a))"

text \<open>
  Modelled from the spec: \<^verbatim>\<open>ReadBE32\<close> is declared in crypto/common.h, which is not
  among the sources; the spec says the four bytes are read big-endian.
\<close>

definition ReadBE32 :: "u8 list \<Rightarrow> u32" where
  "ReadBE32 p =
     push_bit 24 (ucast (p ! 0)) OR push_bit 16 (ucast (p ! 1)) OR
     push_bit 8 (ucast (p ! 2)) OR ucast (p ! 3)"

text \<open>\<^verbatim>\<open>GetLinkedIPv4\<close>: \<open>None\<close> is the failing \<^verbatim>\<open>assert(false)\<close>.\<close>

definition GetLinkedIPv4 :: "CNetAddr \<Rightarrow> u32 option" where
  "GetLinkedIPv4 a =
     (if IsIPv4 a \<or> IsRFC6145 a \<or> IsRFC6052 a then Some (ReadBE32 (drop 12 (ip a)))
      else if IsRFC3964 a then Some (ReadBE32 (drop 2 (ip a)))
      else if IsRFC4380 a then Some (NOT (ReadBE32 (drop 12 (ip a))))
      else None)"

text \<open>
  \<^verbatim>\<open>GetNetClass\<close>: the assignment of 255 is a statement of its own, followed by an
  \<^verbatim>\<open>if\<close>/\<^verbatim>\<open>else if\<close> chain that may assign again.
\<close>

definition GetNetClass :: "(Network \<Rightarrow> u8) \<Rightarrow> CNetAddr \<Rightarrow> u8" where
  "GetNetClass tag a =
     (let net_class = tag NET_IPV6;
          net_class = (if IsLocal a then 255 else net_class)
      in if IsInternal a then tag NET_INTERNAL
         else if \<not> IsRoutable a then tag NET_UNROUTABLE
         else if HasLinkedIPv4 a then tag NET_IPV4
         else if IsTor a then tag NET_ONION
         else net_class)"

section \<open>Reachability\<close>

text \<open>
  The private extension of the enumeration inside \<^verbatim>\<open>GetReachabilityFrom\<close>:
  \<^verbatim>\<open>NET_UNKNOWN\<close> and \<^verbatim>\<open>NET_TEREDO\<close> are \<^verbatim>\<open>NET_MAX + 0\<close> and \<^verbatim>\<open>NET_MAX + 1\<close>, past every
  enumerator, and are the labels of the \<^verbatim>\<open>switch\<close> statements together with the
  enumerators.
\<close>

datatype ExtNetwork = Net Network | NET_UNKNOWN | NET_TEREDO

definition GetExtNetwork :: "CNetAddr option \<Rightarrow> ExtNetwork" where
  "GetExtNetwork addr =
     (case addr of
        None \<Rightarrow> NET_UNKNOWN
      | Some a \<Rightarrow> if IsRFC4380 a then NET_TEREDO else Net (GetNetwork a))"

datatype Reachability =
  REACH_UNREACHABLE | REACH_DEFAULT | REACH_TEREDO | REACH_IPV6_WEAK | REACH_IPV4 |
  REACH_IPV6_STRONG | REACH_PRIVATE

definition GetReachabilityFrom :: "CNetAddr \<Rightarrow> CNetAddr option \<Rightarrow> Reachability" where
  "GetReachabilityFrom this paddrPartner =
     (if \<not> IsRoutable this \<or> IsInternal this then REACH_UNREACHABLE
      else
        (let ourNet = GetExtNetwork (Some this);
             theirNet = GetExtNetwork paddrPartner;
             fTunnel = (IsRFC3964 this \<or> IsRFC6052 this \<or> IsRFC6145 this)
         in case theirNet of
              Net NET_IPV4 \<Rightarrow>
                (case ourNet of
                   Net NET_IPV4 \<Rightarrow> REACH_IPV4
                 | _ \<Rightarrow> REACH_DEFAULT)
            | Net NET_IPV6 \<Rightarrow>
                (case ourNet of
                   NET_TEREDO \<Rightarrow> REACH_TEREDO
                 | Net NET_IPV4 \<Rightarrow> REACH_IPV4
                 | Net NET_IPV6 \<Rightarrow> (if fTunnel then REACH_IPV6_WEAK else REACH_IPV6_STRONG)
                 | _ \<Rightarrow> REACH_DEFAULT)
            | Net NET_ONION \<Rightarrow>
                (case ourNet of
                   Net NET_IPV4 \<Rightarrow> REACH_IPV4
                 | Net NET_ONION \<Rightarrow> REACH_PRIVATE
                 | _ \<Rightarrow> REACH_DEFAULT)
            | NET_TEREDO \<Rightarrow>
                (case ourNet of
                   NET_TEREDO \<Rightarrow> REACH_TEREDO
                 | Net NET_IPV6 \<Rightarrow> REACH_IPV6_WEAK
                 | Net NET_IPV4 \<Rightarrow> REACH_IPV4
                 | _ \<Rightarrow> REACH_DEFAULT)
            | _ \<Rightarrow>
                (case ourNet of
                   NET_TEREDO \<Rightarrow> REACH_TEREDO
                 | Net NET_IPV6 \<Rightarrow> REACH_IPV6_WEAK
                 | Net NET_IPV4 \<Rightarrow> REACH_IPV4
                 | Net NET_ONION \<Rightarrow> REACH_PRIVATE
                 | _ \<Rightarrow> REACH_DEFAULT)))"

section \<open>Network groups\<close>

text \<open>
  The eight bits of a byte, most significant first: the inner loops of \<^verbatim>\<open>GetMappedAS\<close>
  store \<^verbatim>\<open>(byte >> (7 - bit_i)) & 1\<close> for \<open>bit_i = 0, \<dots>, 7\<close>. Likewise the 32 bits of
  the embedded IPv4 address, \<^verbatim>\<open>(ipv4 >> (31 - i)) & 1\<close>.
\<close>

definition byte_bits :: "u8 \<Rightarrow> bool list" where
  "byte_bits b = [bit b 7, bit b 6, bit b 5, bit b 4, bit b 3, bit b 2, bit b 1, bit b 0]"

definition ipv4_bits :: "u32 \<Rightarrow> bool list" where
  "ipv4_bits w = map (\<lambda>i. bit w (31 - i)) [0 ..< 32]"

text \<open>
  The two ways \<^verbatim>\<open>GetMappedAS\<close> fills its 128-bit vector: the IPv4 prefix followed by
  the embedded IPv4 address, or the 16 stored bytes.
\<close>

definition ip_bits_linked :: "u32 \<Rightarrow> bool list" where
  "ip_bits_linked ipv4 = concat (map byte_bits pchIPv4) @ ipv4_bits ipv4"

definition ip_bits_raw :: "CNetAddr \<Rightarrow> bool list" where
  "ip_bits_raw a = concat (map (\<lambda>byte_i. byte_bits (GetByte a (15 - byte_i))) [0 ..< 16])"

text \<open>
  The vector \<^verbatim>\<open>ip_bits\<close> as \<^verbatim>\<open>GetMappedAS\<close> fills it before the lookup; \<open>None\<close> when
  the assertion of \<^verbatim>\<open>GetLinkedIPv4\<close> fails on the way.
\<close>

definition ip_bits :: "CNetAddr \<Rightarrow> bool list option" where
  "ip_bits a =
     (if HasLinkedIPv4 a then
        (case GetLinkedIPv4 a of
           None \<Rightarrow> None
         | Some ipv4 \<Rightarrow> Some (ip_bits_linked ipv4))
      else Some (ip_bits_raw a))"

text \<open>\<^verbatim>\<open>GetMappedAS\<close>. \<^verbatim>\<open>Interpret\<close> lives in util/asmap and is a parameter.\<close>

definition GetMappedAS ::
  "(Network \<Rightarrow> u8) \<Rightarrow> (bool list \<Rightarrow> bool list \<Rightarrow> u32) \<Rightarrow> bool list \<Rightarrow> CNetAddr \<Rightarrow> u32 option" where
  "GetMappedAS tag Interpret asmap a =
     (if length asmap = 0 \<or>
         (GetNetClass tag a \<noteq> tag NET_IPV4 \<and> GetNetClass tag a \<noteq> tag NET_IPV6)
      then Some 0
      else
        (case ip_bits a of
           None \<Rightarrow> None
         | Some bits \<Rightarrow> Some (Interpret asmap bits)))"

text \<open>
  The tail of \<^verbatim>\<open>GetGroup\<close>: whole bytes while at least 8 bits remain, then the last
  byte with its low \<open>8 - nBits\<close> bits set.
\<close>

function push_bytes :: "CNetAddr \<Rightarrow> u8 list \<Rightarrow> nat \<Rightarrow> nat \<Rightarrow> u8 list \<times> nat \<times> nat" where
  "push_bytes a vchRet nStartByte nBits =
     (if nBits \<ge> 8
      then push_bytes a (vchRet @ [GetByte a (15 - nStartByte)]) (nStartByte + 1) (nBits - 8)
      else (vchRet, nStartByte, nBits))"
  by pat_completeness auto
termination
  by (relation "measure (\<lambda>(a, vchRet, nStartByte, nBits). nBits)") auto

declare push_bytes.simps [simp del]

definition push_ip :: "CNetAddr \<Rightarrow> u8 list \<Rightarrow> nat \<Rightarrow> nat \<Rightarrow> u8 list" where
  "push_ip a vchRet0 nStartByte0 nBits0 =
     (case push_bytes a vchRet0 nStartByte0 nBits0 of
        (vchRet, nStartByte, nBits) \<Rightarrow>
          if nBits > 0
          then vchRet @ [GetByte a (15 - nStartByte) OR (push_bit (8 - nBits) 1 - 1)]
          else vchRet)"

definition GetGroup ::
  "(Network \<Rightarrow> u8) \<Rightarrow> (bool list \<Rightarrow> bool list \<Rightarrow> u32) \<Rightarrow> bool list \<Rightarrow> CNetAddr \<Rightarrow> u8 list option" where
  "GetGroup tag Interpret asmap a =
     (case GetMappedAS tag Interpret asmap a of
        None \<Rightarrow> None
      | Some asn \<Rightarrow>
          if asn \<noteq> 0
          then Some (tag NET_IPV6 # map (\<lambda>i. ucast (drop_bit (8 * i) asn AND 0xFF)) [0 ..< 4])
          else
            (let vchRet = [GetNetClass tag a] in
             if IsLocal a then Some (push_ip a vchRet 0 0)
             else if IsInternal a then
               Some (push_ip a vchRet (length g_internal_prefix)
                       ((16 - length g_internal_prefix) * 8))
             else if \<not> IsRoutable a then Some (push_ip a vchRet 0 0)
             else if HasLinkedIPv4 a then
               (case GetLinkedIPv4 a of
                  None \<Rightarrow> None
                | Some ipv4 \<Rightarrow>
                    Some (vchRet @ [ucast (drop_bit 24 ipv4 AND 0xFF),
                                    ucast (drop_bit 16 ipv4 AND 0xFF)]))
             else if IsTor a then Some (push_ip a vchRet 6 4)
             else if IsHeNet a then Some (push_ip a vchRet 0 36)
             else Some (push_ip a vchRet 0 32)))"

section \<open>Subnets\<close>

text \<open>\<^verbatim>\<open>class CSubNet\<close>: the network address, \<^verbatim>\<open>uint8_t netmask[16]\<close> and the validity flag.\<close>

record CSubNet =
  network :: CNetAddr
  netmask :: "u8 list"
  valid :: bool

text \<open>The loop \<^verbatim>\<open>for (x = 0; x < 16; ++x) network.ip[x] &= netmask[x]\<close>.\<close>

definition normalize_ip :: "u8 list \<Rightarrow> u8 list \<Rightarrow> u8 list" where
  "normalize_ip nm ipb = fold (\<lambda>x b. b[x := b ! x AND nm ! x]) [0 ..< 16] ipb"

text \<open>The loop \<^verbatim>\<open>for (; n < 128; ++n) netmask[n >> 3] &= ~(1 << (7 - (n & 7)))\<close>.\<close>

function clear_bits :: "nat \<Rightarrow> u8 list \<Rightarrow> u8 list" where
  "clear_bits n nm =
     (if n < 128
      then clear_bits (n + 1) (nm[n div 8 := nm ! (n div 8) AND NOT (push_bit (7 - n mod 8) 1)])
      else nm)"
  by pat_completeness auto
termination
  by (relation "measure (\<lambda>(n, nm). 128 - n)") auto

declare clear_bits.simps [simp del]

text \<open>
  \<^verbatim>\<open>CSubNet(const CNetAddr &addr, int32_t mask)\<close>; the prefix length \<^verbatim>\<open>mask\<close> is an \<open>int\<close>, and
  no arithmetic on it leaves the 32-bit range.
\<close>

definition CSubNet_prefix :: "CNetAddr \<Rightarrow> int \<Rightarrow> CSubNet" where
  "CSubNet_prefix addr mask_in =
     (let nm0 = pchSingleAddressNetmask;
          astartofs = (if IsIPv4 addr then 12 else 0 :: int);
          n = mask_in;
          (nm, v) =
            (if n \<ge> 0 \<and> n \<le> 128 - astartofs * 8
             then (clear_bits (nat (n + astartofs * 8)) nm0, True)
             else (nm0, False))
      in \<lparr>network = addr\<lparr>ip := normalize_ip nm (ip addr)\<rparr>, netmask = nm, valid = v\<rparr>)"

definition NetmaskBits :: "u8 \<Rightarrow> int" where
  "NetmaskBits x =
     (if x = 0x00 then 0
      else if x = 0x80 then 1
      else if x = 0xc0 then 2
      else if x = 0xe0 then 3
      else if x = 0xf0 then 4
      else if x = 0xf8 then 5
      else if x = 0xfc then 6
      else if x = 0xfe then 7
      else if x = 0xff then 8
      else -1)"

text \<open>
  The validation loop of \<^verbatim>\<open>CSubNet(const CNetAddr &addr, const CNetAddr &mask)\<close> over
  the bytes \<open>i, \<dots>, 15\<close> of the mask: \<open>False\<close> is the early return that marks the
  subnet invalid.
\<close>

function mask_scan :: "u8 list \<Rightarrow> nat \<Rightarrow> bool \<Rightarrow> bool" where
  "mask_scan m i zeros_found =
     (if i < 16 then
        (let num_bits = NetmaskBits (m ! i) in
         if num_bits = -1 \<or> (zeros_found \<and> num_bits \<noteq> 0) then False
         else mask_scan m (i + 1) (if num_bits < 8 then True else zeros_found))
      else True)"
  by pat_completeness auto
termination
  by (relation "measure (\<lambda>(m, i, zeros_found). 16 - i)") auto

declare mask_scan.simps [simp del]

text \<open>
  The constructor from an address and an explicit mask. On the early return the body
  has not written \<^verbatim>\<open>netmask\<close>: the array keeps what it held before, \<open>netmask0\<close>, which
  depends on the member's declaration in netaddress.h and is a parameter.
\<close>

definition CSubNet_mask :: "u8 list \<Rightarrow> CNetAddr \<Rightarrow> CNetAddr \<Rightarrow> CSubNet" where
  "CSubNet_mask netmask0 addr mask_in =
     (if \<not> mask_scan (ip mask_in) (if IsIPv4 mask_in then 12 else 0) False
      then \<lparr>network = addr, netmask = netmask0, valid = False\<rparr>
      else
        (let astartofs = (if IsIPv4 addr then 12 else 0);
             nm = fold (\<lambda>x nm. nm[x := ip mask_in ! x]) [astartofs ..< 16] pchSingleAddressNetmask
         in \<lparr>network = addr\<lparr>ip := normalize_ip nm (ip addr)\<rparr>, netmask = nm, valid = True\<rparr>))"

definition CSubNet_single :: "CNetAddr \<Rightarrow> CSubNet" where
  "CSubNet_single addr =
     \<lparr>network = addr, netmask = pchSingleAddressNetmask, valid = IsValid addr\<rparr>"


text \<open>
  A mask read as a bit string is a run of one-bits followed by zero-bits when nothing
  but zero-bits is left after the leading one-bits.
\<close>

definition ones_then_zeros :: "bool list \<Rightarrow> bool" where
  "ones_then_zeros bs = list_all Not (dropWhile id bs)"


section \<open>Concrete addresses\<close>

text \<open>Addresses and a numbering of the enumeration for the concrete instances below.\<close>

definition mk_addr :: "Network \<Rightarrow> u8 list \<Rightarrow> CNetAddr" where
  "mk_addr net bytes = \<lparr>ip = bytes, m_net = net, scopeId = 0\<rparr>"

definition ipv4_addr :: "u8 \<Rightarrow> u8 \<Rightarrow> u8 \<Rightarrow> u8 \<Rightarrow> CNetAddr" where
  "ipv4_addr b3 b2 b1 b0 = mk_addr NET_IPV4 (pchIPv4 @ [b3, b2, b1, b0])"

definition enum_tag :: "Network \<Rightarrow> u8" where
  "enum_tag n =
     (case n of
        NET_UNROUTABLE \<Rightarrow> 0 | NET_IPV4 \<Rightarrow> 1 | NET_IPV6 \<Rightarrow> 2 | NET_ONION \<Rightarrow> 3 | NET_INTERNAL \<Rightarrow> 4)"

definition addr_6to4 :: CNetAddr where
  "addr_6to4 = mk_addr NET_IPV6 [0x20, 0x02, 8, 8, 2, 2, 0, 0, 0, 0, 0, 0, 0, 0, 0, 1]"

definition addr_ipv6 :: CNetAddr where
  "addr_ipv6 = mk_addr NET_IPV6 [0x2a, 0x00, 0x14, 0x50, 0, 0, 0, 0, 0, 0, 0, 0, 0, 0, 0, 1]"

definition addr_teredo :: CNetAddr where
  "addr_teredo =
     mk_addr NET_IPV6 [0x20, 0x01, 0, 0, 0, 0, 0, 0, 0, 0, 0, 0, 0xf7, 0xf7, 0xfd, 0xfd]"

definition addr_onion :: CNetAddr where
  "addr_onion = mk_addr NET_ONION (pchOnionCat @ [0, 0, 0, 0, 0, 0, 0, 0, 0, 0])"

text \<open>
  Two masks whose bytes 12 to 15 are \<open>ff ff 00 00\<close>: \<open>::255.255.0.0\<close>, which is of the
  IPv6 family, and an address tagged IPv4 whose first twelve bytes are not the IPv4
  prefix.
\<close>

definition mask6_255_255_0_0 :: CNetAddr where
  "mask6_255_255_0_0 = mk_addr NET_IPV6 [0, 0, 0, 0, 0, 0, 0, 0, 0, 0, 0, 0, 255, 255, 0, 0]"

definition mask4_odd_prefix :: CNetAddr where
  "mask4_odd_prefix = mk_addr NET_IPV4 [1, 2, 3, 4, 5, 6, 7, 8, 9, 10, 11, 12, 255, 255, 0, 0]"

text \<open>A stand-in decoder for the concrete instances: one byte per character.\<close>

definition bytes_of :: "string \<Rightarrow> u8 list" where
  "bytes_of s = map (\<lambda>c. of_nat (of_char c)) s"

section \<open>Classification\<close>

lemmas addr_defs = mk_addr_def ipv4_addr_def pchIPv4_def GetByte_def IsIPv4_def IsIPv6_def
  IsTor_def IsInternal_def memcmp_eq_def

lemmas class_defs = IsRFC1918_def IsRFC2544_def IsRFC3927_def IsRFC6598_def IsRFC5737_def
  IsRFC3849_def IsRFC3964_def IsRFC6052_def IsRFC4380_def IsRFC4862_def IsRFC4193_def
  IsRFC6145_def IsRFC4843_def IsRFC7343_def IsLocal_def IsValid_def IsRoutable_def
  pchRFC6052_def pchRFC4862_def pchRFC6145_def pchLocal_def ipNone6_def

lemmas example_defs = addr_6to4_def addr_ipv6_def addr_teredo_def addr_onion_def pchOnionCat_def

lemma IsLocal_not_routable: "IsLocal a \<Longrightarrow> \<not> IsRoutable a"
  by (simp add: IsRoutable_def)

lemma IsLocal_not_internal: "IsLocal a \<Longrightarrow> \<not> IsInternal a"
  by (auto simp: IsLocal_def IsInternal_def IsIPv4_def IsIPv6_def split: if_splits)

text \<open>
  A local address is not routable, so the \<^verbatim>\<open>else if (!IsRoutable())\<close> branch of
  \<^verbatim>\<open>GetNetClass\<close> overwrites the 255 assigned just before it.
\<close>

lemma GetNetClass_local: "IsLocal a \<Longrightarrow> GetNetClass tag a = tag NET_UNROUTABLE"
  by (simp add: GetNetClass_def IsLocal_not_routable IsLocal_not_internal)

lemma GetNetClass_range:
  "GetNetClass tag a \<in> tag ` {NET_INTERNAL, NET_UNROUTABLE, NET_IPV4, NET_ONION, NET_IPV6}"
  by (auto simp: GetNetClass_def Let_def dest: IsLocal_not_routable)

text \<open>No address has net class 255 unless an enumerator of \<^verbatim>\<open>Network\<close> is numbered 255.\<close>

lemma GetNetClass_never_255: "255 \<notin> range tag \<Longrightarrow> GetNetClass tag a \<noteq> 255"
  using GetNetClass_range [of tag a] by auto

lemma routable_8_8_1_1: "IsRoutable (ipv4_addr 8 8 1 1)"
  by (simp add: class_defs addr_defs)

lemma not_routable_10_0_0_1: "\<not> IsRoutable (ipv4_addr 10 0 0 1)"
  by (simp add: class_defs addr_defs)

lemma routable_examples:
  "IsRoutable addr_6to4" "IsRoutable addr_ipv6" "IsRoutable addr_teredo" "IsRoutable addr_onion"
  by (simp_all add: class_defs addr_defs example_defs)

lemma not_internal_examples:
  "\<not> IsInternal (ipv4_addr 8 8 1 1)" "\<not> IsInternal addr_6to4" "\<not> IsInternal addr_ipv6"
  "\<not> IsInternal addr_teredo" "\<not> IsInternal addr_onion"
  by (simp_all add: addr_defs example_defs)

lemma tunnel_examples:
  "IsRFC3964 addr_6to4" "\<not> IsRFC3964 addr_ipv6" "\<not> IsRFC6052 addr_ipv6"
  "\<not> IsRFC6145 addr_ipv6"
  by (simp_all add: class_defs addr_defs example_defs)

lemma linked_examples:
  "HasLinkedIPv4 (ipv4_addr 8 8 1 1)" "HasLinkedIPv4 addr_6to4" "HasLinkedIPv4 addr_teredo"
  by (simp_all add: HasLinkedIPv4_def routable_8_8_1_1 routable_examples tunnel_examples)
    (simp_all add: addr_defs example_defs IsRFC4380_def)

text \<open>
  C1. The claim: every local address has net class 255. The code at 127.0.0.1: the
  address is local, and \<^verbatim>\<open>GetNetClass\<close> returns the value of \<^verbatim>\<open>NET_UNROUTABLE\<close>,
  whatever the numbering of the enumeration.
\<close>

theorem GetNetClass_loopback_unroutable:
  "IsLocal (ipv4_addr 127 0 0 1) \<and>
   GetNetClass tag (ipv4_addr 127 0 0 1) = tag NET_UNROUTABLE"
proof -
  have "IsLocal (ipv4_addr 127 0 0 1)"
    by (simp add: IsLocal_def addr_defs)
  then show ?thesis
    by (simp add: GetNetClass_local)
qed

section \<open>Reachability table\<close>

text \<open>The extended class of a routable address, read off its family.\<close>

lemma GetExtNetwork_routable:
  assumes "IsRoutable this"
  shows "GetExtNetwork (Some this) = Net NET_IPV4 \<longleftrightarrow> IsIPv4 this"
    and "GetExtNetwork (Some this) = Net NET_ONION \<longleftrightarrow> IsTor this"
    and "GetExtNetwork (Some this) = Net NET_IPV6 \<longleftrightarrow> IsIPv6 this \<and> \<not> IsRFC4380 this"
    and "GetExtNetwork (Some this) = NET_TEREDO \<longleftrightarrow> IsRFC4380 this"
  using assms
  by (auto simp: GetExtNetwork_def GetNetwork_def IsRoutable_def IsIPv4_def IsTor_def
      IsIPv6_def IsRFC4380_def IsInternal_def)

text \<open>
  C6. A candidate that is not routable, or is internal, scores \<^verbatim>\<open>REACH_UNREACHABLE\<close>
  against every partner argument, the null pointer (\<open>None\<close>) included.
\<close>

theorem GetReachabilityFrom_unreachable:
  "\<not> IsRoutable this \<or> IsInternal this \<Longrightarrow>
   GetReachabilityFrom this paddrPartner = REACH_UNREACHABLE"
  by (simp add: GetReachabilityFrom_def)

theorem GetReachabilityFrom_unreachable_witness:
  "\<not> IsRoutable (ipv4_addr 10 0 0 1) \<and>
   GetReachabilityFrom (ipv4_addr 10 0 0 1) None = REACH_UNREACHABLE \<and>
   GetReachabilityFrom (ipv4_addr 10 0 0 1) (Some (ipv4_addr 8 8 1 1)) = REACH_UNREACHABLE"
proof -
  have h: "\<not> IsRoutable (ipv4_addr 10 0 0 1) \<or> IsInternal (ipv4_addr 10 0 0 1)"
    by (simp add: not_routable_10_0_0_1)
  show ?thesis
    using not_routable_10_0_0_1 GetReachabilityFrom_unreachable [OF h, of None]
      GetReachabilityFrom_unreachable [OF h, of "Some (ipv4_addr 8 8 1 1)"]
    by simp
qed

lemma ext_examples:
  "GetExtNetwork (Some (ipv4_addr 8 8 1 1)) = Net NET_IPV4"
  "GetExtNetwork (Some addr_6to4) = Net NET_IPV6"
  "GetExtNetwork (Some addr_ipv6) = Net NET_IPV6"
  "GetExtNetwork (Some addr_teredo) = NET_TEREDO"
  "GetExtNetwork (Some addr_onion) = Net NET_ONION"
  using GetExtNetwork_routable(1) [OF routable_8_8_1_1]
    GetExtNetwork_routable(3) [OF routable_examples(1)]
    GetExtNetwork_routable(3) [OF routable_examples(2)]
    GetExtNetwork_routable(4) [OF routable_examples(3)]
    GetExtNetwork_routable(2) [OF routable_examples(4)]
  by (simp_all add: addr_defs example_defs IsRFC4380_def)

text \<open>
  C2. For a routable, non-internal \<open>this\<close>, with both classes read through
  \<^verbatim>\<open>GetExtNetwork\<close>: a partner of class IPv4 gives \<^verbatim>\<open>REACH_IPV4\<close> when \<open>this\<close> is of
  class IPv4 and \<^verbatim>\<open>REACH_DEFAULT\<close> for every other class of \<open>this\<close>; Onion against
  Onion gives \<^verbatim>\<open>REACH_PRIVATE\<close>; IPv6 against IPv6 gives \<^verbatim>\<open>REACH_IPV6_WEAK\<close> when
  \<open>this\<close> is RFC3964, RFC6052 or RFC6145 and \<^verbatim>\<open>REACH_IPV6_STRONG\<close> otherwise.
\<close>

theorem GetReachabilityFrom_table:
  assumes "IsRoutable this" and "\<not> IsInternal this"
  shows "(GetExtNetwork paddrPartner = Net NET_IPV4 \<longrightarrow>
            GetReachabilityFrom this paddrPartner =
              (if GetExtNetwork (Some this) = Net NET_IPV4 then REACH_IPV4 else REACH_DEFAULT)) \<and>
         (GetExtNetwork paddrPartner = Net NET_ONION \<and> GetExtNetwork (Some this) = Net NET_ONION \<longrightarrow>
            GetReachabilityFrom this paddrPartner = REACH_PRIVATE) \<and>
         (GetExtNetwork paddrPartner = Net NET_IPV6 \<and> GetExtNetwork (Some this) = Net NET_IPV6 \<longrightarrow>
            GetReachabilityFrom this paddrPartner =
              (if IsRFC3964 this \<or> IsRFC6052 this \<or> IsRFC6145 this
               then REACH_IPV6_WEAK else REACH_IPV6_STRONG))"
  using assms
  by (auto simp: GetReachabilityFrom_def Let_def split: ExtNetwork.splits Network.splits)

theorem GetReachabilityFrom_table_witness:
  "IsRoutable (ipv4_addr 8 8 1 1) \<and> \<not> IsInternal (ipv4_addr 8 8 1 1) \<and>
   GetExtNetwork (Some (ipv4_addr 8 8 1 1)) = Net NET_IPV4 \<and>
   GetReachabilityFrom (ipv4_addr 8 8 1 1) (Some (ipv4_addr 8 8 1 1)) = REACH_IPV4 \<and>
   GetReachabilityFrom addr_teredo (Some (ipv4_addr 8 8 1 1)) = REACH_DEFAULT \<and>
   GetReachabilityFrom addr_onion (Some addr_onion) = REACH_PRIVATE \<and>
   GetReachabilityFrom addr_ipv6 (Some addr_ipv6) = REACH_IPV6_STRONG \<and>
   GetReachabilityFrom addr_6to4 (Some addr_ipv6) = REACH_IPV6_WEAK"
  using
    GetReachabilityFrom_table [OF routable_8_8_1_1 not_internal_examples(1),
      of "Some (ipv4_addr 8 8 1 1)"]
    GetReachabilityFrom_table [OF routable_examples(3) not_internal_examples(4),
      of "Some (ipv4_addr 8 8 1 1)"]
    GetReachabilityFrom_table [OF routable_examples(4) not_internal_examples(5),
      of "Some addr_onion"]
    GetReachabilityFrom_table [OF routable_examples(2) not_internal_examples(3),
      of "Some addr_ipv6"]
    GetReachabilityFrom_table [OF routable_examples(1) not_internal_examples(2),
      of "Some addr_ipv6"]
  by (simp add: ext_examples tunnel_examples routable_8_8_1_1 not_internal_examples)

section \<open>Embedded IPv4 addresses\<close>

lemma memcmp_eq_nth0: "memcmp_eq p (x # q) (Suc n) \<Longrightarrow> p ! 0 = x"
  by (cases p) (simp_all add: memcmp_eq_def)

text \<open>The encodings are told apart by the first stored byte, so the branches do not overlap.\<close>

lemma RFC3964_not_others: "IsRFC3964 a \<Longrightarrow> \<not> IsIPv4 a \<and> \<not> IsRFC6145 a \<and> \<not> IsRFC6052 a"
  by (auto simp: IsRFC3964_def IsRFC6145_def IsRFC6052_def IsIPv4_def IsIPv6_def GetByte_def
      pchRFC6145_def pchRFC6052_def dest!: memcmp_eq_nth0)

lemma RFC4380_not_others:
  "IsRFC4380 a \<Longrightarrow> \<not> IsIPv4 a \<and> \<not> IsRFC6145 a \<and> \<not> IsRFC6052 a \<and> \<not> IsRFC3964 a"
  by (auto simp: IsRFC4380_def IsRFC3964_def IsRFC6145_def IsRFC6052_def IsIPv4_def IsIPv6_def
      GetByte_def pchRFC6145_def pchRFC6052_def dest!: memcmp_eq_nth0)

lemma HasLinkedIPv4_Some: "HasLinkedIPv4 a \<Longrightarrow> \<exists>v. GetLinkedIPv4 a = Some v"
  by (auto simp: HasLinkedIPv4_def GetLinkedIPv4_def)

text \<open>
  C5. On an address with \<^verbatim>\<open>HasLinkedIPv4\<close> the assertion of \<^verbatim>\<open>GetLinkedIPv4\<close> is not
  reached, and the value is: the last four stored bytes, big-endian, for IPv4, RFC6145
  and RFC6052; stored bytes 2 to 5, big-endian, for RFC3964; the complement of the last
  four stored bytes, big-endian, for RFC4380.
\<close>

theorem GetLinkedIPv4_cases:
  assumes "HasLinkedIPv4 a"
  shows "(\<exists>v. GetLinkedIPv4 a = Some v) \<and>
         (IsIPv4 a \<or> IsRFC6145 a \<or> IsRFC6052 a \<longrightarrow>
            GetLinkedIPv4 a = Some (ReadBE32 (drop 12 (ip a)))) \<and>
         (IsRFC3964 a \<longrightarrow> GetLinkedIPv4 a = Some (ReadBE32 (drop 2 (ip a)))) \<and>
         (IsRFC4380 a \<longrightarrow> GetLinkedIPv4 a = Some (NOT (ReadBE32 (drop 12 (ip a)))))"
proof -
  have "\<exists>v. GetLinkedIPv4 a = Some v"
    using assms by (rule HasLinkedIPv4_Some)
  moreover have "IsRFC3964 a \<longrightarrow> GetLinkedIPv4 a = Some (ReadBE32 (drop 2 (ip a)))"
    using RFC3964_not_others [of a] by (simp add: GetLinkedIPv4_def)
  moreover have "IsRFC4380 a \<longrightarrow> GetLinkedIPv4 a = Some (NOT (ReadBE32 (drop 12 (ip a))))"
    using RFC4380_not_others [of a] by (simp add: GetLinkedIPv4_def)
  ultimately show ?thesis
    by (simp add: GetLinkedIPv4_def)
qed

theorem GetLinkedIPv4_cases_witness:
  "HasLinkedIPv4 (ipv4_addr 8 8 1 1) \<and> GetLinkedIPv4 (ipv4_addr 8 8 1 1) = Some 0x08080101 \<and>
   HasLinkedIPv4 addr_6to4 \<and> GetLinkedIPv4 addr_6to4 = Some 0x08080202 \<and>
   HasLinkedIPv4 addr_teredo \<and> GetLinkedIPv4 addr_teredo = Some 0x08080202"
proof -
  have "IsIPv4 (ipv4_addr 8 8 1 1)" "IsRFC3964 addr_6to4" "IsRFC4380 addr_teredo"
    by (simp_all add: addr_defs example_defs IsRFC3964_def IsRFC4380_def)
  moreover have "ReadBE32 (drop 12 (ip (ipv4_addr 8 8 1 1))) = 0x08080101"
    "ReadBE32 (drop 2 (ip addr_6to4)) = 0x08080202"
    "NOT (ReadBE32 (drop 12 (ip addr_teredo))) = 0x08080202"
    by (simp_all add: ReadBE32_def addr_defs example_defs)
  ultimately show ?thesis
    using GetLinkedIPv4_cases [OF linked_examples(1)] GetLinkedIPv4_cases [OF linked_examples(2)]
      GetLinkedIPv4_cases [OF linked_examples(3)] linked_examples
    by simp
qed

section \<open>Construction\<close>

lemma memcmp_eq_prefix: "memcmp_eq buf p (length p) \<longleftrightarrow> prefix p buf"
proof
  assume "memcmp_eq buf p (length p)"
  then have "take (length p) buf = p" by (simp add: memcmp_eq_def)
  then show "prefix p buf" by (metis take_is_prefix)
next
  assume "prefix p buf"
  then show "memcmp_eq buf p (length p)"
    by (auto simp: prefix_def memcmp_eq_def)
qed

text \<open>
  C8. From a 16-byte buffer \<^verbatim>\<open>SetLegacyIPv6\<close> derives the family by testing, in this
  order, the 12-byte IPv4-mapped prefix, the 6-byte onion prefix and the 6-byte internal
  prefix, and IPv6 is what is left; the stored bytes are the buffer in every case.
\<close>

theorem SetLegacyIPv6_family:
  assumes "length ipv6 = 16"
  shows "m_net (SetLegacyIPv6 ipv6 a) =
           (if prefix [0, 0, 0, 0, 0, 0, 0, 0, 0, 0, 0xff, 0xff] ipv6 then NET_IPV4
            else if prefix [0xFD, 0x87, 0xD8, 0x7E, 0xEB, 0x43] ipv6 then NET_ONION
            else if prefix [0xFD, 0x6B, 0x88, 0xC0, 0x87, 0x24] ipv6 then NET_INTERNAL
            else NET_IPV6) \<and>
         ip (SetLegacyIPv6 ipv6 a) = ipv6 \<and>
         scopeId (SetLegacyIPv6 ipv6 a) = scopeId a"
  using assms
  unfolding SetLegacyIPv6_def Let_def memcmp_eq_prefix
  by (simp add: pchIPv4_def pchOnionCat_def g_internal_prefix_def)

theorem SetLegacyIPv6_family_witness:
  "length (pchOnionCat @ [1, 2, 3, 4, 5, 6, 7, 8, 9, 10]) = 16 \<and>
   m_net (SetLegacyIPv6 (pchOnionCat @ [1, 2, 3, 4, 5, 6, 7, 8, 9, 10]) (ipv4_addr 8 8 1 1)) =
     NET_ONION \<and>
   ip (SetLegacyIPv6 (pchOnionCat @ [1, 2, 3, 4, 5, 6, 7, 8, 9, 10]) (ipv4_addr 8 8 1 1)) =
     pchOnionCat @ [1, 2, 3, 4, 5, 6, 7, 8, 9, 10]"
proof -
  have h: "length (pchOnionCat @ [1, 2, 3, 4, 5, 6, 7, 8, 9, 10 :: u8]) = 16"
    by (simp add: pchOnionCat_def)
  show ?thesis
    using h SetLegacyIPv6_family [OF h, of "ipv4_addr 8 8 1 1"] by (simp add: pchOnionCat_def)
qed

lemma ends_with_suffix:
  "length s > 6 \<and> take 6 (drop (length s - 6) s) = ''.onion'' \<longleftrightarrow>
   length s > 6 \<and> suffix ''.onion'' s"
proof -
  have "take 6 (drop (length s - 6) s) = drop (length s - 6) s"
    by simp
  moreover have "drop (length s - 6) s = ''.onion'' \<longleftrightarrow> suffix ''.onion'' s" if "length s > 6"
  proof
    assume "drop (length s - 6) s = ''.onion''"
    then show "suffix ''.onion'' s" by (metis suffix_drop)
  next
    assume "suffix ''.onion'' s"
    then obtain zs where "s = zs @ ''.onion''" by (auto simp: suffix_def)
    then show "drop (length s - 6) s = ''.onion''" by simp
  qed
  ultimately show ?thesis by auto
qed

text \<open>
  C9. \<^verbatim>\<open>SetSpecial\<close> returns true exactly when the name is longer than six characters,
  ends in \<open>.onion\<close> and the part before the suffix decodes to 10 bytes; whenever it
  returns false the address (family, stored bytes, scope id) is the one before the call.
\<close>

theorem SetSpecial_failure_atomic:
  "(fst (SetSpecial DecodeBase32 strName a) \<longleftrightarrow>
      length strName > 6 \<and> suffix ''.onion'' strName \<and>
      length (DecodeBase32 (c_str (take (length strName - 6) strName))) = 10) \<and>
   (\<not> fst (SetSpecial DecodeBase32 strName a) \<longrightarrow> snd (SetSpecial DecodeBase32 strName a) = a)"
  using ends_with_suffix [of strName]
  by (auto simp: SetSpecial_def Let_def pchOnionCat_def)

theorem SetSpecial_failure_atomic_witness:
  "\<not> fst (SetSpecial bytes_of ''abc.onion'' (ipv4_addr 8 8 1 1)) \<and>
   snd (SetSpecial bytes_of ''abc.onion'' (ipv4_addr 8 8 1 1)) = ipv4_addr 8 8 1 1 \<and>
   \<not> fst (SetSpecial bytes_of ''example.org'' (ipv4_addr 8 8 1 1)) \<and>
   snd (SetSpecial bytes_of ''example.org'' (ipv4_addr 8 8 1 1)) = ipv4_addr 8 8 1 1 \<and>
   fst (SetSpecial bytes_of ''abcdefghij.onion'' (ipv4_addr 8 8 1 1))"
  using SetSpecial_failure_atomic [of bytes_of "''abc.onion''" "ipv4_addr 8 8 1 1"]
    SetSpecial_failure_atomic [of bytes_of "''example.org''" "ipv4_addr 8 8 1 1"]
    SetSpecial_failure_atomic [of bytes_of "''abcdefghij.onion''" "ipv4_addr 8 8 1 1"]
  by (simp add: c_str_def suffix_def bytes_of_def)

section \<open>Group keys\<close>

lemma length_byte_bits: "length (byte_bits b) = 8"
  by (simp add: byte_bits_def)

lemma length_concat_byte_bits: "length (concat (map byte_bits bs)) = 8 * length bs"
  by (induction bs) (simp_all add: length_byte_bits)

lemma length_ip_bits_linked: "length (ip_bits_linked v) = 128"
  by (simp only: ip_bits_linked_def length_append length_concat_byte_bits)
    (simp add: ipv4_bits_def pchIPv4_def)

lemma length_ip_bits_raw: "length (ip_bits_raw a) = 128"
proof -
  have "ip_bits_raw a = concat (map byte_bits (map (\<lambda>byte_i. GetByte a (15 - byte_i)) [0 ..< 16]))"
    by (simp add: ip_bits_raw_def comp_def)
  then show ?thesis
    by (simp only: length_concat_byte_bits) simp
qed

text \<open>The bit vector is always built: with a linked IPv4 address the assertion cannot fail.\<close>

lemma ip_bits_total: "\<exists>bits. ip_bits a = Some bits \<and> length bits = 128"
proof (cases "HasLinkedIPv4 a")
  case True
  then obtain v where "GetLinkedIPv4 a = Some v"
    using HasLinkedIPv4_Some by blast
  with True show ?thesis
    by (simp add: ip_bits_def length_ip_bits_linked)
next
  case False
  then show ?thesis
    by (simp add: ip_bits_def length_ip_bits_raw)
qed

lemma class_8_8_1_1: "GetNetClass tag (ipv4_addr 8 8 1 1) = tag NET_IPV4"
  using linked_examples(1) routable_8_8_1_1 not_internal_examples(1)
  by (simp add: GetNetClass_def Let_def)

lemma linked_values:
  "GetLinkedIPv4 (ipv4_addr 8 8 1 1) = Some 0x08080101"
  "GetLinkedIPv4 addr_6to4 = Some 0x08080202"
  "GetLinkedIPv4 addr_teredo = Some 0x08080202"
  by (simp_all add: GetLinkedIPv4_def ReadBE32_def class_defs addr_defs example_defs)

text \<open>
  C3. With a non-empty AS map and an address of net class IPv4 or IPv6, the bit vector
  handed to the interpreter exists and has 128 bits; when the interpreter returns a
  nonzero AS number \<open>n\<close> for it, \<^verbatim>\<open>GetGroup\<close> returns the five bytes: the value of
  \<^verbatim>\<open>NET_IPV6\<close>, then \<open>n\<close>, \<open>n >> 8\<close>, \<open>n >> 16\<close>, \<open>n >> 24\<close>, each masked by \<open>0xFF\<close>. Nothing
  else of the address enters the key.
\<close>

theorem GetGroup_asmap:
  assumes "asmap \<noteq> []"
    and "GetNetClass tag a = tag NET_IPV4 \<or> GetNetClass tag a = tag NET_IPV6"
  shows "\<exists>bits. ip_bits a = Some bits \<and> length bits = 128 \<and>
           (Interpret asmap bits \<noteq> 0 \<longrightarrow>
              GetGroup tag Interpret asmap a =
                Some [tag NET_IPV6,
                      ucast (Interpret asmap bits AND 0xFF),
                      ucast (drop_bit 8 (Interpret asmap bits) AND 0xFF),
                      ucast (drop_bit 16 (Interpret asmap bits) AND 0xFF),
                      ucast (drop_bit 24 (Interpret asmap bits) AND 0xFF)])"
proof -
  obtain bits where bits: "ip_bits a = Some bits" "length bits = 128"
    using ip_bits_total by blast
  have "GetMappedAS tag Interpret asmap a = Some (Interpret asmap bits)"
    using assms bits(1) by (auto simp: GetMappedAS_def)
  moreover have "[0 ..< 4] = [0, 1, 2, 3 :: nat]"
    by (simp add: upt_conv_Cons)
  ultimately have "Interpret asmap bits \<noteq> 0 \<longrightarrow>
      GetGroup tag Interpret asmap a =
        Some [tag NET_IPV6,
              ucast (Interpret asmap bits AND 0xFF),
              ucast (drop_bit 8 (Interpret asmap bits) AND 0xFF),
              ucast (drop_bit 16 (Interpret asmap bits) AND 0xFF),
              ucast (drop_bit 24 (Interpret asmap bits) AND 0xFF)]"
    by (simp add: GetGroup_def)
  with bits show ?thesis
    by blast
qed

theorem GetGroup_asmap_witness:
  "[True] \<noteq> [] \<and> GetNetClass enum_tag (ipv4_addr 8 8 1 1) = enum_tag NET_IPV4 \<and>
   GetGroup enum_tag (\<lambda>asmap bits. 0x01020300 + of_nat (length bits)) [True] (ipv4_addr 8 8 1 1) =
     Some [2, 0x80, 0x03, 0x02, 0x01]"
proof -
  have h: "GetNetClass enum_tag (ipv4_addr 8 8 1 1) = enum_tag NET_IPV4 \<or>
      GetNetClass enum_tag (ipv4_addr 8 8 1 1) = enum_tag NET_IPV6"
    by (simp add: class_8_8_1_1)
  have ne: "[True] \<noteq> []" by simp
  show ?thesis
    using GetGroup_asmap [OF ne h, of "\<lambda>asmap bits. 0x01020300 + of_nat (length bits)"]
    by (auto simp: class_8_8_1_1 enum_tag_def)
qed

lemma ucast_low_byte: "(ucast (w AND 0xFF :: u32) :: u8) = ucast w"
proof -
  have eq: "(0xFF :: u32) = mask 8" by (simp add: mask_eq_exp_minus_1)
  show ?thesis
    unfolding eq by (auto intro!: bit_word_eqI simp: bit_simps)
qed

lemma routable_not_special: "IsRoutable a \<Longrightarrow> \<not> IsLocal a \<and> \<not> IsInternal a"
  by (simp add: IsRoutable_def)

lemma GetNetClass_linked:
  assumes "HasLinkedIPv4 a"
  shows "GetNetClass tag a = tag NET_IPV4"
proof -
  from assms have "IsRoutable a"
    by (simp add: HasLinkedIPv4_def)
  with assms routable_not_special [of a] show ?thesis
    by (simp add: GetNetClass_def Let_def)
qed

lemma GetGroup_linked:
  assumes "HasLinkedIPv4 a" and "GetLinkedIPv4 a = Some v"
  shows "GetGroup tag Interpret [] a = Some [tag NET_IPV4, ucast (drop_bit 24 v), ucast (drop_bit 16 v)]"
proof -
  from assms(1) have "IsRoutable a"
    by (simp add: HasLinkedIPv4_def)
  with routable_not_special [of a] have "IsRoutable a" "\<not> IsLocal a" "\<not> IsInternal a"
    by simp_all
  then show ?thesis
    using assms by (simp add: GetGroup_def GetMappedAS_def GetNetClass_linked ucast_low_byte)
qed

text \<open>
  C4. With an empty AS map, two addresses with \<^verbatim>\<open>HasLinkedIPv4\<close> whose embedded IPv4
  addresses agree in the top two octets (the upper 16 bits) have the same group key,
  and the key is the three bytes: the value of \<^verbatim>\<open>NET_IPV4\<close>, the top octet and the
  second octet of the embedded address.
\<close>

theorem GetGroup_linked_ipv4:
  assumes "HasLinkedIPv4 a" and "HasLinkedIPv4 b"
    and "GetLinkedIPv4 a = Some va" and "GetLinkedIPv4 b = Some vb"
    and "drop_bit 16 va = drop_bit 16 vb"
  shows "GetGroup tag Interpret [] a = GetGroup tag Interpret [] b \<and>
         GetGroup tag Interpret [] a =
           Some [tag NET_IPV4, ucast (drop_bit 24 va), ucast (drop_bit 16 va)]"
proof -
  have "drop_bit 24 va = drop_bit 8 (drop_bit 16 va)"
    by simp
  also have "\<dots> = drop_bit 8 (drop_bit 16 vb)"
    by (simp only: assms(5))
  also have "\<dots> = drop_bit 24 vb"
    by simp
  finally have "drop_bit 24 va = drop_bit 24 vb" .
  with assms(5) show ?thesis
    by (simp add: GetGroup_linked [OF assms(1) assms(3)] GetGroup_linked [OF assms(2) assms(4)])
qed

theorem GetGroup_linked_ipv4_witness:
  "HasLinkedIPv4 (ipv4_addr 8 8 1 1) \<and> HasLinkedIPv4 addr_6to4 \<and>
   GetLinkedIPv4 (ipv4_addr 8 8 1 1) = Some 0x08080101 \<and>
   GetLinkedIPv4 addr_6to4 = Some 0x08080202 \<and>
   drop_bit 16 (0x08080101 :: u32) = drop_bit 16 (0x08080202 :: u32) \<and>
   GetGroup enum_tag (\<lambda>asmap bits. 0) [] (ipv4_addr 8 8 1 1) = Some [1, 8, 8] \<and>
   GetGroup enum_tag (\<lambda>asmap bits. 0) [] addr_6to4 = Some [1, 8, 8]"
proof -
  have h: "drop_bit 16 (0x08080101 :: u32) = drop_bit 16 (0x08080202 :: u32)"
    by simp
  have v: "[enum_tag NET_IPV4, ucast (drop_bit 24 (0x08080101 :: u32)),
            ucast (drop_bit 16 (0x08080101 :: u32))] = [1, 8, 8 :: u8]"
    by (simp add: enum_tag_def)
  note k = GetGroup_linked_ipv4 [OF linked_examples(1) linked_examples(2) linked_values(1) linked_values(2) h,
        of enum_tag "\<lambda>asmap bits. 0"]
  from k [THEN conjunct2] v
  have a: "GetGroup enum_tag (\<lambda>asmap bits. 0) [] (ipv4_addr 8 8 1 1) = Some [1, 8, 8]"
    by (simp only:)
  from k [THEN conjunct1, symmetric] a
  have b: "GetGroup enum_tag (\<lambda>asmap bits. 0) [] addr_6to4 = Some [1, 8, 8]"
    by (rule trans)
  show ?thesis
    using linked_examples(1,2) linked_values(1,2) h a b by (intro conjI)
qed

section \<open>Subnet masks\<close>




lemma ones_then_zeros_zero: "ones_then_zeros (False # bs) = list_all Not bs"
  by (simp add: ones_then_zeros_def)















text \<open>The loop reads the mask at the indices \<open>i, \<dots>, 15\<close> only.\<close>

lemma mask_scan_cong:
  "(\<And>j. i \<le> j \<Longrightarrow> j < 16 \<Longrightarrow> m1 ! j = m2 ! j) \<Longrightarrow> mask_scan m1 i zf = mask_scan m2 i zf"
proof (induction m1 i zf rule: mask_scan.induct)
  case (1 m i zf)
  show ?case
  proof (cases "i < 16")
    case False
    then show ?thesis by (simp add: mask_scan.simps [of _ i zf])
  next
    case True
    with "1.prems" have same: "m ! i = m2 ! i" by simp
    let ?n = "NetmaskBits (m ! i)"
    show ?thesis
    proof (cases "?n = -1 \<or> (zf \<and> ?n \<noteq> 0)")
      case stop: True
      with True same show ?thesis
        by (simp add: mask_scan.simps [of _ i zf] Let_def)
    next
      case go: False
      have "mask_scan m (i + 1) (if ?n < 8 then True else zf) =
            mask_scan m2 (i + 1) (if ?n < 8 then True else zf)"
        using "1.IH" [OF True refl go] "1.prems" by simp
      with True same go show ?thesis
        by (auto simp: mask_scan.simps [of _ i zf] Let_def)
    qed
  qed
qed

lemma drop_eq_nth:
  assumes "drop k xs = drop k ys" and "length xs = length ys" and "k \<le> j" and "j < length xs"
  shows "xs ! j = ys ! j"
proof -
  have "xs ! j = drop k xs ! (j - k)" using assms(3,4) by simp
  also have "\<dots> = drop k ys ! (j - k)" by (simp only: assms(1))
  also have "\<dots> = ys ! j" using assms(2,3,4) by simp
  finally show ?thesis .
qed

lemma upt_12_16: "[12 ..< 16] = [12, 13, 14, 15 :: nat]"
  by (simp add: upt_conv_Cons)

lemma take_12_single: "take 12 pchSingleAddressNetmask = replicate 12 0xFF"
  by (simp add: pchSingleAddressNetmask_def numeral_eq_Suc)

lemma netmask_ipv4_prefix:
  "take 12 (fold (\<lambda>x nm. nm[x := bs ! x]) [12 ..< 16] pchSingleAddressNetmask) = replicate 12 0xFF"
  by (simp add: upt_12_16 pchSingleAddressNetmask_def numeral_eq_Suc)

lemma CSubNet_mask_valid:
  "valid (CSubNet_mask netmask0 addr m) = mask_scan (ip m) (if IsIPv4 m then 12 else 0) False"
  by (simp add: CSubNet_mask_def Let_def)

lemma CSubNet_mask_same_valid:
  assumes "IsIPv4 addr" and "length (ip m1) = 16" and "length (ip m2) = 16"
    and "drop 12 (ip m1) = drop 12 (ip m2)"
    and "valid (CSubNet_mask netmask0 addr m1) = valid (CSubNet_mask netmask0 addr m2)"
  shows "CSubNet_mask netmask0 addr m1 = CSubNet_mask netmask0 addr m2"
proof -
  have nth: "ip m1 ! j = ip m2 ! j" if "12 \<le> j" "j < 16" for j
    using drop_eq_nth [OF assms(4), of j] assms(2,3) that by simp
  have "fold (\<lambda>x nm. nm[x := ip m1 ! x]) [12 ..< 16] pchSingleAddressNetmask =
        fold (\<lambda>x nm. nm[x := ip m2 ! x]) [12 ..< 16] pchSingleAddressNetmask"
    by (simp add: upt_12_16 nth)
  with assms(1,5) show ?thesis
    unfolding CSubNet_mask_valid by (simp add: CSubNet_mask_def Let_def)
qed




text \<open>
  The range that is validated follows the family of the mask argument, the range that
  is copied the family of the network: an IPv6 network with the IPv4 mask 255.255.255.0
  is a valid subnet whose netmask keeps the zero bytes of the IPv4 prefix.
\<close>

lemma CSubNet_mask_mixed_family:
  "valid (CSubNet_mask ipNone6 addr_ipv6 (ipv4_addr 255 255 255 0)) \<and>
   netmask (CSubNet_mask ipNone6 addr_ipv6 (ipv4_addr 255 255 255 0)) =
     [0, 0, 0, 0, 0, 0, 0, 0, 0, 0, 0xff, 0xff, 0xff, 0xff, 0xff, 0]"
  by code_simp

text \<open>The mask \<open>::255.255.0.0\<close> has the family that \<^verbatim>\<open>SetLegacyIPv6\<close> derives from its bytes.\<close>

lemma mask6_wellformed:
  "SetLegacyIPv6 (ip mask6_255_255_0_0) a =
     a\<lparr>ip := ip mask6_255_255_0_0, m_net := m_net mask6_255_255_0_0\<rparr>"
  by (simp add: SetLegacyIPv6_def mask6_255_255_0_0_def mk_addr_def memcmp_eq_def pchIPv4_def
      pchOnionCat_def g_internal_prefix_def)

lemma valid_mask4: "valid (CSubNet_mask ipNone6 (ipv4_addr 1 2 3 4) (ipv4_addr 255 255 0 0))"
  by (simp add: CSubNet_mask_valid addr_defs mask_scan.simps NetmaskBits_def)

lemma invalid_mask6: "\<not> valid (CSubNet_mask ipNone6 (ipv4_addr 1 2 3 4) mask6_255_255_0_0)"
  by (simp add: CSubNet_mask_valid addr_defs mask6_255_255_0_0_def mask_scan.simps NetmaskBits_def)

lemma prefix_24_netmask:
  "netmask (CSubNet_prefix (ipv4_addr 192 168 1 0) 24) =
     [0xff, 0xff, 0xff, 0xff, 0xff, 0xff, 0xff, 0xff, 0xff, 0xff, 0xff, 0xff, 0xff, 0xff, 0xff, 0]"
  by code_simp






text \<open>
  C10. The claim: for an IPv4 network address, two masks that agree on bytes 12 to 15
  give subnets of the same validity. The mask 255.255.0.0 of the IPv4 family and the
  mask ::255.255.0.0 of the IPv6 family agree on bytes 12 to 15; the first gives a
  valid subnet, the second an invalid one, since the validation loop starts at byte 0
  for a mask that is not of the IPv4 family.
\<close>

theorem CSubNet_mask_bytes_0_11_counterexample:
  "IsIPv4 (ipv4_addr 1 2 3 4) \<and>
   drop 12 (ip (ipv4_addr 255 255 0 0)) = drop 12 (ip mask6_255_255_0_0) \<and>
   valid (CSubNet_mask ipNone6 (ipv4_addr 1 2 3 4) (ipv4_addr 255 255 0 0)) \<and>
   \<not> valid (CSubNet_mask ipNone6 (ipv4_addr 1 2 3 4) mask6_255_255_0_0)"
  using valid_mask4 invalid_mask6 by (simp add: addr_defs mask6_255_255_0_0_def)

text \<open>
  C10, amended. For an IPv4 network address and two 16-byte masks that agree on bytes
  12 to 15: when both masks are of the IPv4 family the two subnets are equal (validity,
  netmask and normalised network); whatever the families, the two subnets are equal as
  soon as their validity is; and a valid subnet stores \<open>0xFF\<close> in netmask bytes 0 to 11.
\<close>

theorem CSubNet_mask_ipv4_bytes_12_15:
  assumes "IsIPv4 addr" and "length (ip m1) = 16" and "length (ip m2) = 16"
    and "drop 12 (ip m1) = drop 12 (ip m2)"
  shows "(IsIPv4 m1 \<and> IsIPv4 m2 \<longrightarrow>
            CSubNet_mask netmask0 addr m1 = CSubNet_mask netmask0 addr m2) \<and>
         (valid (CSubNet_mask netmask0 addr m1) = valid (CSubNet_mask netmask0 addr m2) \<longrightarrow>
            CSubNet_mask netmask0 addr m1 = CSubNet_mask netmask0 addr m2) \<and>
         (valid (CSubNet_mask netmask0 addr m1) \<longrightarrow>
            take 12 (netmask (CSubNet_mask netmask0 addr m1)) = replicate 12 0xFF)"
proof -
  have nth: "ip m1 ! j = ip m2 ! j" if "12 \<le> j" "j < 16" for j
    using drop_eq_nth [OF assms(4), of j] assms(2,3) that by simp
  have "valid (CSubNet_mask netmask0 addr m1) = valid (CSubNet_mask netmask0 addr m2)"
    if "IsIPv4 m1" "IsIPv4 m2"
    using that mask_scan_cong [of 12 "ip m1" "ip m2" False] nth
    by (simp add: CSubNet_mask_valid)
  moreover have "take 12 (netmask (CSubNet_mask netmask0 addr m1)) = replicate 12 0xFF"
    if "valid (CSubNet_mask netmask0 addr m1)"
    using that assms(1) unfolding CSubNet_mask_valid
    by (simp add: CSubNet_mask_def Let_def netmask_ipv4_prefix take_12_single)
  ultimately show ?thesis
    using CSubNet_mask_same_valid [OF assms] by blast
qed

theorem CSubNet_mask_ipv4_bytes_12_15_witness:
  "IsIPv4 (ipv4_addr 1 2 3 4) \<and> IsIPv4 (ipv4_addr 255 255 0 0) \<and> IsIPv4 mask4_odd_prefix \<and>
   length (ip (ipv4_addr 255 255 0 0)) = 16 \<and> length (ip mask4_odd_prefix) = 16 \<and>
   drop 12 (ip (ipv4_addr 255 255 0 0)) = drop 12 (ip mask4_odd_prefix) \<and>
   valid (CSubNet_mask ipNone6 (ipv4_addr 1 2 3 4) (ipv4_addr 255 255 0 0)) \<and>
   CSubNet_mask ipNone6 (ipv4_addr 1 2 3 4) (ipv4_addr 255 255 0 0) =
     CSubNet_mask ipNone6 (ipv4_addr 1 2 3 4) mask4_odd_prefix \<and>
   take 12 (netmask (CSubNet_mask ipNone6 (ipv4_addr 1 2 3 4) mask4_odd_prefix)) = replicate 12 0xFF"
proof -
  have h: "IsIPv4 (ipv4_addr 1 2 3 4)" "length (ip (ipv4_addr 255 255 0 0)) = 16"
    "length (ip mask4_odd_prefix) = 16"
    "drop 12 (ip (ipv4_addr 255 255 0 0)) = drop 12 (ip mask4_odd_prefix)"
    by (simp_all add: addr_defs mask4_odd_prefix_def)
  have f: "IsIPv4 (ipv4_addr 255 255 0 0)" "IsIPv4 mask4_odd_prefix"
    by (simp_all add: addr_defs mask4_odd_prefix_def)
  note k = CSubNet_mask_ipv4_bytes_12_15 [OF h, of ipNone6]
  from k f have e: "CSubNet_mask ipNone6 (ipv4_addr 1 2 3 4) (ipv4_addr 255 255 0 0) =
      CSubNet_mask ipNone6 (ipv4_addr 1 2 3 4) mask4_odd_prefix"
    by blast
  from k valid_mask4
  have "take 12 (netmask (CSubNet_mask ipNone6 (ipv4_addr 1 2 3 4) (ipv4_addr 255 255 0 0))) =
      replicate 12 0xFF"
    by blast
  with e have "take 12 (netmask (CSubNet_mask ipNone6 (ipv4_addr 1 2 3 4) mask4_odd_prefix)) =
      replicate 12 0xFF"
    by (simp only:)
  with h f e valid_mask4 show ?thesis
    by (intro conjI)
qed

end
